theory Spec2Isabelle
  imports Complex_Main "HOL-Library.Multiset"
begin

section \<open>Data model\<close>

text \<open>
  The evaluation core of \<^verbatim>\<open>dialent/common/evalmatrix.py\<close>.  An annotated object
  carries a tag, an id (used for sorting only) and whatever else the scorer looks at,
  which is kept as an opaque payload.  Exceptions of the Python code are values of
  \<open>error\<close>: the failed \<^verbatim>\<open>assert\<close> of the constructor, the \<^verbatim>\<open>TypeError\<close> of
  subscripting or unpacking \<^verbatim>\<open>None\<close>, the \<^verbatim>\<open>ValueError\<close> of \<^verbatim>\<open>list.index\<close> and
  the \<^verbatim>\<open>KeyError\<close> of a dictionary lookup.  Scores are Python floats; they are
  modelled as exact reals, the comparisons with \<open>0\<close> and \<open>1\<close> being exact in both.
\<close>

datatype error = AssertionError | TypeError | ValueError | KeyError

record 'a obj =
  tag :: string
  oid :: int
  payload :: 'a

record 'a Calculator =
  priority :: "'a obj \<Rightarrow> 'a obj \<Rightarrow> real"
  quality :: "'a obj \<Rightarrow> 'a obj \<Rightarrow> real"

record Metrics =
  precision :: real
  recall :: real
  f1 :: real

text \<open>
  Modelled from the spec: \<^verbatim>\<open>Metrics.createSimple\<close> lives in
  \<^verbatim>\<open>dialent/common/metrics.py\<close>, which is not among the sources.  The spec gives
  \<open>precision = tp / n_test\<close> (0 if \<open>n_test = 0\<close>), \<open>recall = tp / n_std\<close>
  (0 if \<open>n_std = 0\<close>) and \<open>f1 = 0\<close> if \<open>tp = 0\<close>, else the harmonic mean of the two.
\<close>

definition createSimple :: "real \<Rightarrow> nat \<Rightarrow> nat \<Rightarrow> Metrics" where
  "createSimple tp n_std n_test =
     (let p = (if n_test = 0 then 0 else tp / real n_test);
          r = (if n_std = 0 then 0 else tp / real n_std)
      in \<lparr>precision = p, recall = r,
          f1 = (if tp = 0 then 0 else 2 * p * r / (p + r))\<rparr>)"

record 'a TagData =
  td_tag :: string
  objects :: "'a obj list"
  td_size :: nat
  td_start :: nat

definition TagData_init :: "string \<Rightarrow> 'a obj list \<Rightarrow> 'a TagData" where
  "TagData_init tg object_list =
     (let objs = sort_key oid (filter (\<lambda>x. tag x = tg) object_list)
      in \<lparr>td_tag = tg, objects = objs, td_size = length objs, td_start = 0\<rparr>)"

definition TagData_start :: "'a TagData \<Rightarrow> nat" where
  "TagData_start d = td_start d"

definition TagData_end :: "'a TagData \<Rightarrow> nat" where
  "TagData_end d = td_start d + td_size d"

type_synonym pairs = "(nat \<times> nat) list"

record 'a EvaluationMatrix =
  em_mode :: string
  em_metrics :: "string \<rightharpoonup> Metrics"
  em_s :: "string \<rightharpoonup> 'a TagData"
  em_t :: "string \<rightharpoonup> 'a TagData"
  em_std :: "'a obj list"
  em_test :: "'a obj list"
  n_std :: nat
  n_test :: nat
  em_m :: "real list list"
  em_calc :: "'a Calculator"

definition allowed_tags :: "string list" where
  "allowed_tags = [''per'', ''loc'', ''org'', ''locorg'']"

section \<open>Loops with exceptions\<close>

text \<open>A \<^verbatim>\<open>for\<close> loop whose body may raise: the first error ends the loop.\<close>

fun for_each :: "('x \<Rightarrow> 's \<Rightarrow> error + 's) \<Rightarrow> 'x list \<Rightarrow> 's \<Rightarrow> error + 's" where
  "for_each body [] st = Inr st"
| "for_each body (x # xs) st =
     (case body x st of Inl e \<Rightarrow> Inl e | Inr st' \<Rightarrow> for_each body xs st')"

text \<open>Sequencing: an error of the first computation is the error of the whole.\<close>

definition bindE :: "error + 'a \<Rightarrow> ('a \<Rightarrow> error + 'b) \<Rightarrow> error + 'b" where
  "bindE x f = (case x of Inl e \<Rightarrow> Inl e | Inr v \<Rightarrow> f v)"

definition lookup :: "('k \<rightharpoonup> 'v) \<Rightarrow> 'k \<Rightarrow> error + 'v" where
  "lookup d k = (case d k of None \<Rightarrow> Inl KeyError | Some v \<Rightarrow> Inr v)"

section \<open>Construction\<close>

text \<open>Lines 46 to 48: one \<open>TagData\<close> per allowed tag, for both collections.\<close>

definition load_step ::
  "'a obj list \<Rightarrow> 'a obj list \<Rightarrow> string \<Rightarrow>
   (string \<rightharpoonup> 'a TagData) \<times> (string \<rightharpoonup> 'a TagData) \<Rightarrow>
   (string \<rightharpoonup> 'a TagData) \<times> (string \<rightharpoonup> 'a TagData)" where
  "load_step std test tg st =
     ((fst st)(tg \<mapsto> TagData_init tg std), (snd st)(tg \<mapsto> TagData_init tg test))"

text \<open>Lines 51 to 55: the start of a block is the end of the block before it.\<close>

definition offset_step ::
  "nat \<Rightarrow> (string \<rightharpoonup> 'a TagData) \<times> (string \<rightharpoonup> 'a TagData) \<Rightarrow>
   error + (string \<rightharpoonup> 'a TagData) \<times> (string \<rightharpoonup> 'a TagData)" where
  "offset_step i st =
     (let prev_tag = allowed_tags ! (i - 1); tg = allowed_tags ! i
      in bindE (lookup (fst st) prev_tag) (\<lambda>sp.
         bindE (lookup (fst st) tg) (\<lambda>sd.
         bindE (lookup (snd st) prev_tag) (\<lambda>tp.
         bindE (lookup (snd st) tg) (\<lambda>td.
           Inr ((fst st)(tg \<mapsto> sd\<lparr>td_start := TagData_end sp\<rparr>),
                (snd st)(tg \<mapsto> td\<lparr>td_start := TagData_end tp\<rparr>)))))))"

text \<open>Lines 57 to 61: the blocks laid end to end in the order of the tag list.\<close>

definition extend_step ::
  "(string \<rightharpoonup> 'a TagData) \<Rightarrow> (string \<rightharpoonup> 'a TagData) \<Rightarrow> string \<Rightarrow>
   'a obj list \<times> 'a obj list \<Rightarrow> error + 'a obj list \<times> 'a obj list" where
  "extend_step s t tg acc =
     bindE (lookup s tg) (\<lambda>sd.
     bindE (lookup t tg) (\<lambda>td.
       Inr (fst acc @ objects sd, snd acc @ objects td)))"

text \<open>Lines 66 to 71: the matrix of priorities, one scorer call per entry.\<close>

definition build_matrix :: "'a Calculator \<Rightarrow> 'a obj list \<Rightarrow> 'a obj list \<Rightarrow> real list list" where
  "build_matrix c std test = map (\<lambda>x. map (\<lambda>y. priority c x y) test) std"

definition EvaluationMatrix_init ::
  "'a obj list \<Rightarrow> 'a obj list \<Rightarrow> 'a Calculator \<Rightarrow> string \<Rightarrow> error + 'a EvaluationMatrix" where
  "EvaluationMatrix_init std test c mode =
     (if \<not> (mode = ''regular'' \<or> mode = ''simple'') then Inl AssertionError
      else
        bindE (for_each offset_step [1 ..< length allowed_tags]
                 (fold (load_step std test) allowed_tags (Map.empty, Map.empty))) (\<lambda>st.
        bindE (for_each (extend_step (fst st) (snd st)) allowed_tags ([], [])) (\<lambda>arrays.
          Inr \<lparr>em_mode = mode, em_metrics = Map.empty, em_s = fst st, em_t = snd st,
               em_std = fst arrays, em_test = snd arrays,
               n_std = length (fst arrays), n_test = length (snd arrays),
               em_m = build_matrix c (fst arrays) (snd arrays), em_calc = c\<rparr>)))"

section \<open>Evaluation of a matching\<close>

text \<open>Lines 177 to 183: the pairs whose standard index lies in the block of the tag.\<close>

definition reduce_step ::
  "'a EvaluationMatrix \<Rightarrow> string \<Rightarrow> nat \<times> nat \<Rightarrow> pairs \<Rightarrow> error + pairs" where
  "reduce_step em tg pair res =
     bindE (lookup (em_s em) tg) (\<lambda>d1.
       if fst pair \<ge> TagData_start d1 then
         bindE (lookup (em_s em) tg) (\<lambda>d2.
           if fst pair < TagData_end d2 then Inr (res @ [pair]) else Inr res)
       else Inr res)"

definition reduce :: "'a EvaluationMatrix \<Rightarrow> pairs \<Rightarrow> string \<Rightarrow> error + pairs" where
  "reduce em matching tg = for_each (reduce_step em tg) matching []"

text \<open>Lines 172 and 173: the quality of the pairs, summed up.\<close>

definition true_positives :: "'a EvaluationMatrix \<Rightarrow> pairs \<Rightarrow> real" where
  "true_positives em subset' =
     fold (\<lambda>pair tp. tp + quality (em_calc em) (em_std em ! fst pair) (em_test em ! snd pair))
       subset' 0"

definition evaluate :: "'a EvaluationMatrix \<Rightarrow> pairs \<Rightarrow> string \<Rightarrow> error + Metrics" where
  "evaluate em pairs tag_filter =
     (if tag_filter \<in> set allowed_tags then
        bindE (reduce em pairs tag_filter) (\<lambda>subset'.
        bindE (lookup (em_s em) tag_filter) (\<lambda>sd.
        bindE (lookup (em_t em) tag_filter) (\<lambda>td.
          Inr (createSimple (true_positives em subset') (td_size sd) (td_size td)))))
      else Inr (createSimple (true_positives em pairs) (n_std em) (n_test em)))"

section \<open>The recursive search\<close>

text \<open>
  The result of \<^verbatim>\<open>_recursiveSearch\<close> is Python's \<^verbatim>\<open>None\<close> or a tuple of an F1
  value and a list of pairs.
\<close>

type_synonym search_result = "(real \<times> pairs) option"

text \<open>
  The pools hold indices below \<open>n_std\<close> and \<open>n_test\<close>, and the matrix of a constructed
  object has \<open>n_std\<close> rows of \<open>n_test\<close> entries, so that no lookup \<^verbatim>\<open>self.m[k, t]\<close> of the
  search is out of range: the invariant \<open>search_state_ok\<close> below is kept by every
  recursive call.
\<close>

definition findMatches :: "'a EvaluationMatrix \<Rightarrow> nat \<Rightarrow> nat list \<Rightarrow> nat list" where
  "findMatches em s_index test =
     (let perfect_matches = filter (\<lambda>t. em_m em ! s_index ! t = 1) test;
          matches = filter (\<lambda>t. em_m em ! s_index ! t \<noteq> 0) test
      in if length perfect_matches > 0 then perfect_matches else matches)"

text \<open>\<^verbatim>\<open>test.index(t)\<close>: the first position of \<open>t\<close>, a \<^verbatim>\<open>ValueError\<close> without one.\<close>

fun index_from :: "nat \<Rightarrow> nat \<Rightarrow> nat list \<Rightarrow> error + nat" where
  "index_from i t [] = Inl ValueError"
| "index_from i t (x # xs) = (if x = t then Inr i else index_from (Suc i) t xs)"

definition index :: "nat list \<Rightarrow> nat \<Rightarrow> error + nat" where
  "index test t = index_from 0 t test"

text \<open>
  Lines 133 and 134 (and 144, 145): \<^verbatim>\<open>if max_res is None or res[0] > max_res[0]\<close>.
  With \<open>max_res\<close> still \<^verbatim>\<open>None\<close> the right operand is not evaluated and \<open>res\<close> is
  taken whatever it is; otherwise \<^verbatim>\<open>res[0]\<close> raises on a \<open>res\<close> that is \<^verbatim>\<open>None\<close>.
\<close>

definition keep_max :: "search_result \<Rightarrow> search_result \<Rightarrow> error + search_result" where
  "keep_max max_res res =
     (case max_res of
        None \<Rightarrow> Inr res
      | Some best \<Rightarrow>
          (case res of
             None \<Rightarrow> Inl TypeError
           | Some r \<Rightarrow> Inr (if fst r > fst best then res else max_res)))"

text \<open>Lines 117 to 124: the scan of the remaining standard indices for one candidate.\<close>

record scan_state =
  skip_test_object :: bool
  alt_count :: nat
  scan_max_alternatives :: nat

definition scan_step :: "'a EvaluationMatrix \<Rightarrow> nat \<Rightarrow> nat \<Rightarrow> nat \<Rightarrow> scan_state \<Rightarrow> scan_state" where
  "scan_step em cur t k sc =
     (let sc1 = (if em_m em ! k ! t = 1 \<and> em_m em ! cur ! t < 1
                 then sc\<lparr>skip_test_object := True\<rparr> else sc);
          sc2 = (if em_m em ! k ! t \<noteq> 0
                 then sc1\<lparr>alt_count := alt_count sc1 + 1\<rparr> else sc1)
      in if alt_count sc2 > scan_max_alternatives sc2
         then sc2\<lparr>scan_max_alternatives := alt_count sc2\<rparr> else sc2)"

text \<open>The variables of the loop over the candidates (lines 104 to 107).\<close>

record loop_state =
  max_res :: search_result
  possible_pairs_count :: nat
  pair_max_alternatives :: nat

text \<open>
  Lines 110 to 134, the body of the loop for the candidate \<open>t\<close>: \<open>cur\<close> is
  \<^verbatim>\<open>curr = std[0]\<close> and \<open>search\<close> is the recursive call on \<^verbatim>\<open>std[1:]\<close>.
\<close>

definition candidate_step ::
  "'a EvaluationMatrix \<Rightarrow> nat \<Rightarrow> nat list \<Rightarrow> nat list \<Rightarrow> pairs \<Rightarrow>
   (nat list \<Rightarrow> pairs \<Rightarrow> error + search_result) \<Rightarrow> nat \<Rightarrow> loop_state \<Rightarrow> error + loop_state" where
  "candidate_step em cur std test pairs search t st =
     bindE (index test t) (\<lambda>i.
       let sc = fold (scan_step em cur t) std
                  \<lparr>skip_test_object = False, alt_count = 0,
                   scan_max_alternatives = pair_max_alternatives st\<rparr>;
           st1 = st\<lparr>possible_pairs_count := possible_pairs_count st + 1,
                    pair_max_alternatives := scan_max_alternatives sc\<rparr>
       in if skip_test_object sc then Inr st1
          else
            bindE (search (take i test @ drop (i + 1) test) (pairs @ [(cur, t)])) (\<lambda>res.
            bindE (keep_max (max_res st1) res) (\<lambda>best.
              Inr (st1\<lparr>max_res := best\<rparr>))))"

text \<open>Lines 139 and 140: the condition under which the head index is also left out.\<close>

definition skip_guard :: "loop_state \<Rightarrow> bool" where
  "skip_guard st =
     (possible_pairs_count st = 0 \<or>
      possible_pairs_count st = 1 \<and> pair_max_alternatives st > 1)"

definition leaf :: "'a EvaluationMatrix \<Rightarrow> pairs \<Rightarrow> error + search_result" where
  "leaf em pairs = bindE (evaluate em pairs '''') (\<lambda>metrics. Inr (Some (f1 metrics, pairs)))"

fun recursiveSearch ::
  "'a EvaluationMatrix \<Rightarrow> nat list \<Rightarrow> nat list \<Rightarrow> pairs \<Rightarrow> error + search_result" where
  "recursiveSearch em [] test pairs = leaf em pairs"
| "recursiveSearch em (cur # rest) [] pairs = leaf em pairs"
| "recursiveSearch em (cur # rest) (t0 # ts) pairs =
     bindE (for_each
              (candidate_step em cur (cur # rest) (t0 # ts) pairs
                 (\<lambda>test' pairs'. recursiveSearch em rest test' pairs'))
              (findMatches em cur (t0 # ts))
              \<lparr>max_res = None, possible_pairs_count = 0, pair_max_alternatives = 0\<rparr>) (\<lambda>st.
       if skip_guard st then
         bindE (recursiveSearch em rest (t0 # ts) pairs) (\<lambda>res.
           keep_max (max_res st) res)
       else Inr (max_res st))"

text \<open>
  Lines 73 to 86.  Unpacking a \<^verbatim>\<open>None\<close> result raises \<^verbatim>\<open>TypeError\<close>.  The metrics
  dictionary is the only state of the object that changes.
\<close>

definition metrics_step ::
  "pairs \<Rightarrow> string \<Rightarrow> 'a EvaluationMatrix \<Rightarrow> error + 'a EvaluationMatrix" where
  "metrics_step matching tg em =
     bindE (evaluate em matching tg) (\<lambda>mt.
       Inr (em\<lparr>em_metrics := (em_metrics em)(tg \<mapsto> mt)\<rparr>))"

definition findSolution :: "'a EvaluationMatrix \<Rightarrow> error + pairs \<times> 'a EvaluationMatrix" where
  "findSolution em =
     bindE (recursiveSearch em [0 ..< n_std em] [0 ..< n_test em] []) (\<lambda>r.
       case r of
         None \<Rightarrow> Inl TypeError
       | Some res \<Rightarrow>
           bindE (evaluate em (snd res) '''') (\<lambda>overall.
           bindE (for_each (metrics_step (snd res)) allowed_tags
                    (em\<lparr>em_metrics := (em_metrics em)(''overall'' \<mapsto> overall)\<rparr>)) (\<lambda>em'.
             Inr (snd res, em'))))"

section \<open>Notions used in the statements\<close>

text \<open>
  The block of a tag, the reordered array and the table of blocks that the constructor
  computes, written out; \<open>constructed\<close> is the object it returns for a valid mode.
\<close>

definition block :: "string \<Rightarrow> 'a obj list \<Rightarrow> 'a obj list" where
  "block tg xs = sort_key oid (filter (\<lambda>x. tag x = tg) xs)"

definition reordered :: "'a obj list \<Rightarrow> 'a obj list" where
  "reordered xs = block ''per'' xs @ block ''loc'' xs @ block ''org'' xs @ block ''locorg'' xs"

definition tag_table :: "'a obj list \<Rightarrow> string \<rightharpoonup> 'a TagData" where
  "tag_table xs =
     [''per'' \<mapsto> \<lparr>td_tag = ''per'', objects = block ''per'' xs,
         td_size = length (block ''per'' xs), td_start = 0\<rparr>,
      ''loc'' \<mapsto> \<lparr>td_tag = ''loc'', objects = block ''loc'' xs,
         td_size = length (block ''loc'' xs), td_start = length (block ''per'' xs)\<rparr>,
      ''org'' \<mapsto> \<lparr>td_tag = ''org'', objects = block ''org'' xs,
         td_size = length (block ''org'' xs),
         td_start = length (block ''per'' xs) + length (block ''loc'' xs)\<rparr>,
      ''locorg'' \<mapsto> \<lparr>td_tag = ''locorg'', objects = block ''locorg'' xs,
         td_size = length (block ''locorg'' xs),
         td_start = length (block ''per'' xs) + length (block ''loc'' xs) +
           length (block ''org'' xs)\<rparr>]"

definition constructed ::
  "'a obj list \<Rightarrow> 'a obj list \<Rightarrow> 'a Calculator \<Rightarrow> string \<Rightarrow> 'a EvaluationMatrix" where
  "constructed std test c mode =
     \<lparr>em_mode = mode, em_metrics = Map.empty, em_s = tag_table std, em_t = tag_table test,
      em_std = reordered std, em_test = reordered test,
      n_std = length (reordered std), n_test = length (reordered test),
      em_m = build_matrix c (reordered std) (reordered test), em_calc = c\<rparr>"

text \<open>The range \<open>[start, end)\<close> of a tag in a table of blocks.\<close>

definition tag_range :: "(string \<rightharpoonup> 'a TagData) \<Rightarrow> string \<Rightarrow> nat \<times> nat" where
  "tag_range tbl tg =
     (case tbl tg of None \<Rightarrow> (0, 0) | Some d \<Rightarrow> (TagData_start d, TagData_end d))"

text \<open>
  What it means for the table \<open>tbl\<close> and the array \<open>arr\<close> to partition the input:
  the array holds exactly the objects with an allowed tag, it is the blocks laid end to end
  in the order of the tags, each block is the slice of the array at its range, holds the
  objects of its tag and is sorted by id, the ranges start at 0, each ends where the next
  starts, the last ends at the end of the array, and every index lies in the range of
  exactly one tag.
\<close>

definition partitioned :: "'a obj list \<Rightarrow> (string \<rightharpoonup> 'a TagData) \<Rightarrow> 'a obj list \<Rightarrow> bool" where
  "partitioned input tbl arr \<longleftrightarrow>
     mset arr = mset (filter (\<lambda>x. tag x \<in> set allowed_tags) input) \<and>
     arr = concat (map (\<lambda>tg. case tbl tg of None \<Rightarrow> [] | Some d \<Rightarrow> objects d) allowed_tags) \<and>
     (\<forall>tg \<in> set allowed_tags. \<exists>d. tbl tg = Some d \<and>
        td_size d = length (objects d) \<and>
        objects d = take (td_size d) (drop (TagData_start d) arr) \<and>
        mset (objects d) = mset (filter (\<lambda>x. tag x = tg) input) \<and>
        sorted (map oid (objects d))) \<and>
     fst (tag_range tbl (hd allowed_tags)) = 0 \<and>
     (\<forall>i. Suc i < length allowed_tags \<longrightarrow>
        snd (tag_range tbl (allowed_tags ! i)) = fst (tag_range tbl (allowed_tags ! Suc i))) \<and>
     snd (tag_range tbl (last allowed_tags)) = length arr \<and>
     (\<forall>i < length arr. \<exists>!tg. tg \<in> set allowed_tags \<and>
        fst (tag_range tbl tg) \<le> i \<and> i < snd (tag_range tbl tg))"

text \<open>
  The matrix as the specification words it, with a scorer that is handed the mode along
  with each pair of objects.
\<close>

definition spec_matrix ::
  "(string \<Rightarrow> 'a obj \<Rightarrow> 'a obj \<Rightarrow> real) \<Rightarrow> string \<Rightarrow> 'a obj list \<Rightarrow> 'a obj list \<Rightarrow>
   real list list" where
  "spec_matrix scorer mode std test =
     map (\<lambda>x. map (\<lambda>y. scorer mode x y) (reordered test)) (reordered std)"

text \<open>Invariants of the search: no index is used twice and no pair has priority 0.\<close>

definition good_pairs :: "'a EvaluationMatrix \<Rightarrow> pairs \<Rightarrow> bool" where
  "good_pairs em ps \<longleftrightarrow>
     distinct (map fst ps) \<and> distinct (map snd ps) \<and>
     (\<forall>p \<in> set ps. fst p < n_std em \<and> snd p < n_test em \<and> em_m em ! fst p ! snd p \<noteq> 0)"

definition search_state_ok :: "'a EvaluationMatrix \<Rightarrow> nat list \<Rightarrow> nat list \<Rightarrow> pairs \<Rightarrow> bool" where
  "search_state_ok em std test ps \<longleftrightarrow>
     distinct std \<and> distinct test \<and>
     (\<forall>s \<in> set std. s < n_std em) \<and> (\<forall>t \<in> set test. t < n_test em) \<and>
     good_pairs em ps \<and> fst ` set ps \<inter> set std = {} \<and> snd ` set ps \<inter> set test = {}"

definition result_ok :: "'a EvaluationMatrix \<Rightarrow> search_result \<Rightarrow> bool" where
  "result_ok em r \<longleftrightarrow> (\<forall>res. r = Some res \<longrightarrow> good_pairs em (snd res))"

text \<open>The overall F1 of a pairing, as \<^verbatim>\<open>_evaluate\<close> computes it without a tag filter.\<close>

definition overall_f1 :: "'a EvaluationMatrix \<Rightarrow> pairs \<Rightarrow> real" where
  "overall_f1 em ps = f1 (createSimple (true_positives em ps) (n_std em) (n_test em))"

text \<open>
  A perfect pair that nothing contests: priority 1, and no other standard object has
  priority 1 with \<open>j\<close>, no other test object priority 1 with \<open>i\<close>.
\<close>

definition perfect_pair :: "'a EvaluationMatrix \<Rightarrow> nat \<Rightarrow> nat \<Rightarrow> bool" where
  "perfect_pair em i j \<longleftrightarrow>
     i < n_std em \<and> j < n_test em \<and> em_m em ! i ! j = 1 \<and>
     (\<forall>k \<in> set [0 ..< n_std em]. k \<noteq> i \<longrightarrow> em_m em ! k ! j \<noteq> 1) \<and>
     (\<forall>t \<in> set [0 ..< n_test em]. t \<noteq> j \<longrightarrow> em_m em ! i ! t \<noteq> 1)"

text \<open>
  A pairing that a search could return under the rules of the specification: no index
  twice, no pair of priority 0, a standard object that has a perfect candidate is paired
  with a perfect one, and every uncontested perfect pair is in it.
\<close>

definition admissible :: "'a EvaluationMatrix \<Rightarrow> pairs \<Rightarrow> bool" where
  "admissible em ps \<longleftrightarrow>
     distinct (map fst ps) \<and> distinct (map snd ps) \<and>
     (\<forall>p \<in> set ps. fst p < n_std em \<and> snd p < n_test em \<and> em_m em ! fst p ! snd p \<noteq> 0 \<and>
        ((\<exists>t \<in> set [0 ..< n_test em]. em_m em ! fst p ! t = 1) \<longrightarrow>
           em_m em ! fst p ! snd p = 1)) \<and>
     (\<forall>i \<in> set [0 ..< n_std em]. \<forall>j \<in> set [0 ..< n_test em].
        perfect_pair em i j \<longrightarrow> (i, j) \<in> set ps)"

text \<open>
  The number of remaining standard indices (the head included) that have a nonzero
  priority with a test object; the candidates of the head index that the scan of lines
  117 to 127 does not drop; and the condition for leaving the head index out as the
  specification words it: no candidate survives, or there is exactly one candidate and it
  has more than one such alternative.
\<close>

definition alternatives :: "'a EvaluationMatrix \<Rightarrow> nat list \<Rightarrow> nat \<Rightarrow> nat" where
  "alternatives em std t = length (filter (\<lambda>k. em_m em ! k ! t \<noteq> 0) std)"

definition pruned :: "'a EvaluationMatrix \<Rightarrow> nat \<Rightarrow> nat list \<Rightarrow> nat \<Rightarrow> bool" where
  "pruned em cur std t =
     skip_test_object (fold (scan_step em cur t) std
       \<lparr>skip_test_object = False, alt_count = 0, scan_max_alternatives = 0\<rparr>)"

definition surviving :: "'a EvaluationMatrix \<Rightarrow> nat \<Rightarrow> nat list \<Rightarrow> nat list \<Rightarrow> nat list" where
  "surviving em cur std test = filter (\<lambda>t. \<not> pruned em cur std t) (findMatches em cur test)"

definition spec_skip_condition :: "'a EvaluationMatrix \<Rightarrow> nat \<Rightarrow> nat list \<Rightarrow> nat list \<Rightarrow> bool" where
  "spec_skip_condition em cur std test \<longleftrightarrow>
     surviving em cur std test = [] \<or>
     (case findMatches em cur test of
        [t] \<Rightarrow> alternatives em std t > 1
      | _ \<Rightarrow> False)"

text \<open>
  The pairings at the leaves of the search, in the order in which it reaches them: for
  each surviving candidate of the head index the leaves below the committed pair, then,
  where \<^verbatim>\<open>_findMatches\<close> gave no candidate or exactly one with more than one alternative,
  the leaves below the head index left unmatched.  \<open>best_of\<close> says that a result is
  \<^verbatim>\<open>None\<close> when there is no leaf, and otherwise a leaf with its overall F1, which no
  other leaf exceeds.
\<close>

fun explored :: "'a EvaluationMatrix \<Rightarrow> nat list \<Rightarrow> nat list \<Rightarrow> pairs \<Rightarrow> pairs list" where
  "explored em [] test ps = [ps]"
| "explored em (cur # rest) [] ps = [ps]"
| "explored em (cur # rest) (t0 # ts) ps =
     concat (map (\<lambda>t. explored em rest (remove1 t (t0 # ts)) (ps @ [(cur, t)]))
               (surviving em cur (cur # rest) (t0 # ts))) @
     (case findMatches em cur (t0 # ts) of
        [] \<Rightarrow> explored em rest (t0 # ts) ps
      | [t] \<Rightarrow> if alternatives em (cur # rest) t > 1 then explored em rest (t0 # ts) ps else []
      | _ \<Rightarrow> [])"

definition best_of :: "'a EvaluationMatrix \<Rightarrow> pairs list \<Rightarrow> search_result \<Rightarrow> bool" where
  "best_of em leaves r \<longleftrightarrow>
     (case r of
        None \<Rightarrow> leaves = []
      | Some res \<Rightarrow> snd res \<in> set leaves \<and> fst res = overall_f1 em (snd res) \<and>
          (\<forall>x \<in> set leaves. overall_f1 em x \<le> fst res))"

section \<open>Example inputs\<close>

text \<open>
  Objects without a payload, and scorers given by tables over the ids of the objects.
  In the examples with persons only, the id of an object is its index in the reordered
  array.
\<close>

definition mention :: "string \<Rightarrow> int \<Rightarrow> unit obj" where
  "mention tg k = \<lparr>tag = tg, oid = k, payload = ()\<rparr>"

definition person :: "int \<Rightarrow> unit obj" where
  "person k = mention ''per'' k"

definition table_calc :: "(int \<Rightarrow> int \<Rightarrow> real) \<Rightarrow> (int \<Rightarrow> int \<Rightarrow> real) \<Rightarrow> unit Calculator" where
  "table_calc p q =
     \<lparr>priority = (\<lambda>x y. p (oid x) (oid y)), quality = (\<lambda>x y. q (oid x) (oid y))\<rparr>"

text \<open>
  Example A: three standard and two test persons.  Standard 0 has priority 1/2 with both
  test objects, standard 1 is perfect with test 0 and standard 2 with test 1.
\<close>

definition priority_A :: "int \<Rightarrow> int \<Rightarrow> real" where
  "priority_A s t =
     (if s = 0 then 1 / 2 else if s = 1 \<and> t = 0 then 1 else if s = 2 \<and> t = 1 then 1 else 0)"

definition std_A :: "unit obj list" where
  "std_A = [person 0, person 1, person 2]"

definition test_A :: "unit obj list" where
  "test_A = [person 0, person 1]"

definition calc_A :: "unit Calculator" where
  "calc_A = table_calc priority_A priority_A"

definition em_A :: "unit EvaluationMatrix" where
  "em_A = constructed std_A test_A calc_A ''regular''"

text \<open>
  Example B: the same objects; standard 0 has priority and quality 1/4 with both test
  objects, standard 1 has 3/4 with test 0 and standard 2 has 3/4 with test 1.
\<close>

definition priority_B :: "int \<Rightarrow> int \<Rightarrow> real" where
  "priority_B s t =
     (if s = 0 then 1 / 4 else if s = 1 \<and> t = 0 then 3 / 4
      else if s = 2 \<and> t = 1 then 3 / 4 else 0)"

definition calc_B :: "unit Calculator" where
  "calc_B = table_calc priority_B priority_B"

definition em_B :: "unit EvaluationMatrix" where
  "em_B = constructed std_A test_A calc_B ''regular''"

text \<open>
  Example C: two standard persons and one test person.  Standard 0 is perfect with the
  test object (priority 1) at quality 1/2, standard 1 has priority 1/2 at quality 1.
\<close>

definition priority_C :: "int \<Rightarrow> int \<Rightarrow> real" where
  "priority_C s t = (if s = 0 then 1 else 1 / 2)"

definition quality_C :: "int \<Rightarrow> int \<Rightarrow> real" where
  "quality_C s t = (if s = 0 then 1 / 2 else 1)"

definition std_C :: "unit obj list" where
  "std_C = [person 0, person 1]"

definition test_C :: "unit obj list" where
  "test_C = [person 0]"

definition calc_C :: "unit Calculator" where
  "calc_C = table_calc priority_C quality_C"

definition em_C :: "unit EvaluationMatrix" where
  "em_C = constructed std_C test_C calc_C ''regular''"

text \<open>
  Example D: four standard and three test persons, quality equal to priority.  Standard 0
  is perfect with test 0, standard 1 has priority 1/2 with every test object, standard 2
  is perfect with test 1 and standard 3 with test 2.
\<close>

definition priority_D :: "int \<Rightarrow> int \<Rightarrow> real" where
  "priority_D s t =
     (if s = 0 \<and> t = 0 then 1 else if s = 1 then 1 / 2 else if s = 2 \<and> t = 1 then 1
      else if s = 3 \<and> t = 2 then 1 else 0)"

definition std_D :: "unit obj list" where
  "std_D = [person 0, person 1, person 2, person 3]"

definition test_D :: "unit obj list" where
  "test_D = [person 0, person 1, person 2]"

definition calc_D :: "unit Calculator" where
  "calc_D = table_calc priority_D priority_D"

definition em_D :: "unit EvaluationMatrix" where
  "em_D = constructed std_D test_D calc_D ''regular''"

text \<open>
  Example E: a collection with every allowed tag and one tag that is not allowed, out of
  order; and a scorer that gives priority and quality 1 to objects of the same id.
\<close>

definition std_E :: "unit obj list" where
  "std_E = [mention ''loc'' 5, mention ''misc'' 1, mention ''per'' 9, mention ''per'' 2,
            mention ''locorg'' 3, mention ''org'' 4]"

definition test_E :: "unit obj list" where
  "test_E = [mention ''org'' 4, mention ''per'' 2, mention ''event'' 7]"

definition same_id :: "int \<Rightarrow> int \<Rightarrow> real" where
  "same_id s t = (if s = t then 1 else 0)"

definition calc_E :: "unit Calculator" where
  "calc_E = table_calc same_id same_id"

definition em_E :: "unit EvaluationMatrix" where
  "em_E = constructed std_E test_E calc_E ''simple''"

text \<open>
  A scorer that takes the mode, as the specification describes it: objects of the same
  tag match, and a \<^verbatim>\<open>locorg\<close> matches a \<^verbatim>\<open>loc\<close> or an \<^verbatim>\<open>org\<close> in the regular mode only.
\<close>

definition mode_scorer :: "string \<Rightarrow> unit obj \<Rightarrow> unit obj \<Rightarrow> real" where
  "mode_scorer mode x y =
     (if tag x = tag y then 1
      else if mode = ''regular'' \<and> tag x = ''locorg'' \<and> (tag y = ''loc'' \<or> tag y = ''org'')
      then 1 else 0)"

text \<open>
  Example F: a standard collection in which no object has an allowed tag.  Example G:
  one \<^verbatim>\<open>locorg\<close> standard object and one \<^verbatim>\<open>loc\<close> test object.
\<close>

definition std_F :: "unit obj list" where
  "std_F = [mention ''misc'' 1, mention ''event'' 2]"

definition test_F :: "unit obj list" where
  "test_F = [person 0, mention ''loc'' 3]"

definition std_G :: "unit obj list" where
  "std_G = [mention ''locorg'' 0]"

definition test_G :: "unit obj list" where
  "test_G = [mention ''loc'' 0]"



section \<open>Construction: what the constructor returns\<close>

lemma upt_1_4: "[1 ..< 4] = [1, 2, Suc 2]"
  by (simp add: upt_rec)

lemma load_tables:
  "fold (load_step std test) allowed_tags (Map.empty, Map.empty) =
     ([''per'' \<mapsto> TagData_init ''per'' std, ''loc'' \<mapsto> TagData_init ''loc'' std,
       ''org'' \<mapsto> TagData_init ''org'' std, ''locorg'' \<mapsto> TagData_init ''locorg'' std],
      [''per'' \<mapsto> TagData_init ''per'' test, ''loc'' \<mapsto> TagData_init ''loc'' test,
       ''org'' \<mapsto> TagData_init ''org'' test, ''locorg'' \<mapsto> TagData_init ''locorg'' test])"
  by (simp add: allowed_tags_def load_step_def)

lemma offsets:
  "for_each offset_step [1 ..< length allowed_tags]
     (fold (load_step std test) allowed_tags (Map.empty, Map.empty)) =
   Inr (tag_table std, tag_table test)"
  unfolding load_tables
  by (simp add: allowed_tags_def upt_1_4 offset_step_def bindE_def lookup_def TagData_end_def
      TagData_init_def tag_table_def block_def Let_def)

lemma arrays:
  "for_each (extend_step (tag_table std) (tag_table test)) allowed_tags ([], []) =
     Inr (reordered std, reordered test)"
  by (simp add: allowed_tags_def extend_step_def bindE_def lookup_def tag_table_def
      reordered_def)

lemma init_valid:
  "mode = ''regular'' \<or> mode = ''simple'' \<Longrightarrow>
   EvaluationMatrix_init std test c mode = Inr (constructed std test c mode)"
  unfolding EvaluationMatrix_init_def offsets
  by (simp add: bindE_def arrays constructed_def)

lemma init_invalid:
  "\<not> (mode = ''regular'' \<or> mode = ''simple'') \<Longrightarrow>
   EvaluationMatrix_init std test c mode = Inl AssertionError"
  by (simp add: EvaluationMatrix_init_def)

lemma init_Inr:
  assumes "EvaluationMatrix_init std test c mode = Inr em"
  shows "em = constructed std test c mode" and "mode = ''regular'' \<or> mode = ''simple''"
proof -
  show m: "mode = ''regular'' \<or> mode = ''simple''"
  proof (rule ccontr)
    assume "\<not> (mode = ''regular'' \<or> mode = ''simple'')"
    from init_invalid [OF this, of std test c] assms show False by simp
  qed
  from init_valid [OF m, of std test c] assms show "em = constructed std test c mode"
    by simp
qed

lemma constructed_fields:
  "em_mode (constructed std test c mode) = mode"
  "em_metrics (constructed std test c mode) = Map.empty"
  "em_s (constructed std test c mode) = tag_table std"
  "em_t (constructed std test c mode) = tag_table test"
  "em_std (constructed std test c mode) = reordered std"
  "em_test (constructed std test c mode) = reordered test"
  "n_std (constructed std test c mode) = length (reordered std)"
  "n_test (constructed std test c mode) = length (reordered test)"
  "em_m (constructed std test c mode) = build_matrix c (reordered std) (reordered test)"
  "em_calc (constructed std test c mode) = c"
  by (simp_all add: constructed_def)

text \<open>
  Claim C9.  Constructing an \<open>EvaluationMatrix\<close> with a mode other than \<^verbatim>\<open>regular\<close> or
  \<^verbatim>\<open>simple\<close> fails with the error of the assertion, which is the first statement of the
  constructor, so that no object and no state of it exists; with either valid mode the
  constructor does not raise this error and returns an object that holds the mode.
\<close>

theorem mode_validation:
  "(mode \<noteq> ''regular'' \<and> mode \<noteq> ''simple'' \<longrightarrow>
      EvaluationMatrix_init std test c mode = Inl AssertionError) \<and>
   (mode = ''regular'' \<or> mode = ''simple'' \<longrightarrow>
      (\<exists>em. EvaluationMatrix_init std test c mode = Inr em \<and> em_mode em = mode))"
proof (intro conjI impI)
  assume "mode \<noteq> ''regular'' \<and> mode \<noteq> ''simple''"
  then show "EvaluationMatrix_init std test c mode = Inl AssertionError"
    by (simp add: init_invalid)
next
  assume "mode = ''regular'' \<or> mode = ''simple''"
  from init_valid [OF this, of std test c]
  show "\<exists>em. EvaluationMatrix_init std test c mode = Inr em \<and> em_mode em = mode"
    by (simp add: constructed_fields)
qed

theorem mode_validation_witness:
  "EvaluationMatrix_init std_E test_E calc_E ''fast'' = Inl AssertionError \<and>
   (\<exists>em. EvaluationMatrix_init std_E test_E calc_E ''simple'' = Inr em \<and>
      em_mode em = ''simple'')"
  using mode_validation [of "''fast''" std_E test_E calc_E]
    mode_validation [of "''simple''" std_E test_E calc_E]
  by simp

section \<open>The partition by tags\<close>

lemma mset_block: "mset (block tg xs) = mset (filter (\<lambda>x. tag x = tg) xs)"
  by (simp add: block_def)

lemma sorted_block: "sorted (map oid (block tg xs))"
  by (simp add: block_def)

lemma mset_reordered:
  "mset (reordered xs) = mset (filter (\<lambda>x. tag x \<in> set allowed_tags) xs)"
  by (induction xs) (auto simp: reordered_def block_def allowed_tags_def)

lemma All_less_4: "(\<forall>i. Suc i < 4 \<longrightarrow> P i) \<longleftrightarrow> P 0 \<and> P 1 \<and> P 2"
proof -
  have "\<And>i::nat. Suc i < 4 \<longleftrightarrow> i = 0 \<or> i = 1 \<or> i = 2" by arith
  then show ?thesis by auto
qed

lemma tag_ranges:
  "tag_range (tag_table xs) ''per'' = (0, length (block ''per'' xs))"
  "tag_range (tag_table xs) ''loc'' =
     (length (block ''per'' xs), length (block ''per'' xs) + length (block ''loc'' xs))"
  "tag_range (tag_table xs) ''org'' =
     (length (block ''per'' xs) + length (block ''loc'' xs),
      length (block ''per'' xs) + length (block ''loc'' xs) + length (block ''org'' xs))"
  "tag_range (tag_table xs) ''locorg'' =
     (length (block ''per'' xs) + length (block ''loc'' xs) + length (block ''org'' xs),
      length (block ''per'' xs) + length (block ''loc'' xs) + length (block ''org'' xs) +
        length (block ''locorg'' xs))"
  by (simp_all add: tag_table_def tag_range_def TagData_start_def TagData_end_def)

lemma one_range:
  assumes "i < length (reordered xs)"
  shows "\<exists>!tg. tg \<in> set allowed_tags \<and>
           fst (tag_range (tag_table xs) tg) \<le> i \<and> i < snd (tag_range (tag_table xs) tg)"
proof -
  from assms have i: "i < length (block ''per'' xs) + length (block ''loc'' xs) +
      length (block ''org'' xs) + length (block ''locorg'' xs)"
    by (simp add: reordered_def)
  consider "i < length (block ''per'' xs)"
    | "length (block ''per'' xs) \<le> i"
      "i < length (block ''per'' xs) + length (block ''loc'' xs)"
    | "length (block ''per'' xs) + length (block ''loc'' xs) \<le> i"
      "i < length (block ''per'' xs) + length (block ''loc'' xs) + length (block ''org'' xs)"
    | "length (block ''per'' xs) + length (block ''loc'' xs) + length (block ''org'' xs) \<le> i"
    by linarith
  then show ?thesis
  proof cases
    case 1
    show ?thesis
      by (rule ex1I [of _ "''per''"]) (use 1 i in \<open>auto simp: allowed_tags_def tag_ranges\<close>)
  next
    case 2
    show ?thesis
      by (rule ex1I [of _ "''loc''"]) (use 2 i in \<open>auto simp: allowed_tags_def tag_ranges\<close>)
  next
    case 3
    show ?thesis
      by (rule ex1I [of _ "''org''"]) (use 3 i in \<open>auto simp: allowed_tags_def tag_ranges\<close>)
  next
    case 4
    show ?thesis
      by (rule ex1I [of _ "''locorg''"]) (use 4 i in \<open>auto simp: allowed_tags_def tag_ranges\<close>)
  qed
qed

lemma partitioned_tag_table: "partitioned xs (tag_table xs) (reordered xs)"
  unfolding partitioned_def
proof (intro conjI)
  show "mset (reordered xs) = mset (filter (\<lambda>x. tag x \<in> set allowed_tags) xs)"
    by (rule mset_reordered)
  show "reordered xs =
      concat (map (\<lambda>tg. case tag_table xs tg of None \<Rightarrow> [] | Some d \<Rightarrow> objects d) allowed_tags)"
    by (simp add: allowed_tags_def tag_table_def reordered_def)
  show "\<forall>tg \<in> set allowed_tags. \<exists>d. tag_table xs tg = Some d \<and>
        td_size d = length (objects d) \<and>
        objects d = take (td_size d) (drop (TagData_start d) (reordered xs)) \<and>
        mset (objects d) = mset (filter (\<lambda>x. tag x = tg) xs) \<and>
        sorted (map oid (objects d))"
    by (simp add: allowed_tags_def tag_table_def reordered_def TagData_start_def mset_block
        sorted_block)
  show "fst (tag_range (tag_table xs) (hd allowed_tags)) = 0"
    by (simp add: allowed_tags_def tag_ranges)
  show "\<forall>i. Suc i < length allowed_tags \<longrightarrow>
        snd (tag_range (tag_table xs) (allowed_tags ! i)) =
        fst (tag_range (tag_table xs) (allowed_tags ! Suc i))"
  proof -
    have len: "length allowed_tags = 4"
      by (simp add: allowed_tags_def)
    have nth: "allowed_tags ! 0 = ''per''" "allowed_tags ! Suc 0 = ''loc''"
      "allowed_tags ! 1 = ''loc''" "allowed_tags ! Suc 1 = ''org''"
      "allowed_tags ! 2 = ''org''" "allowed_tags ! Suc 2 = ''locorg''"
      by (simp_all add: allowed_tags_def)
    show ?thesis
      unfolding len All_less_4 nth tag_ranges by simp
  qed
  show "snd (tag_range (tag_table xs) (last allowed_tags)) = length (reordered xs)"
    by (simp add: allowed_tags_def tag_ranges reordered_def)
  show "\<forall>i < length (reordered xs). \<exists>!tg. tg \<in> set allowed_tags \<and>
        fst (tag_range (tag_table xs) tg) \<le> i \<and> i < snd (tag_range (tag_table xs) tg)"
    using one_range by blast
qed

text \<open>
  Claim C7.  After construction with a valid mode, for both collections: the reordered
  array holds exactly the input objects whose tag is one of the four allowed tags, it is
  the blocks of the tags laid end to end in the order of the tag list, each block sorted
  by id, and the ranges \<open>[start(tag), end(tag))\<close> start at 0, are adjacent in the order of
  the tags and end at the length of the array, so that every index of the array lies in
  the range of exactly one tag.
\<close>

theorem partition_after_init:
  assumes "mode = ''regular'' \<or> mode = ''simple''"
  shows "\<exists>em. EvaluationMatrix_init std test c mode = Inr em \<and>
           partitioned std (em_s em) (em_std em) \<and> n_std em = length (em_std em) \<and>
           partitioned test (em_t em) (em_test em) \<and> n_test em = length (em_test em)"
  using assms by (simp add: init_valid constructed_fields partitioned_tag_table)

theorem partition_after_init_witness:
  "\<exists>em. EvaluationMatrix_init std_E test_E calc_E ''simple'' = Inr em \<and>
      partitioned std_E (em_s em) (em_std em) \<and> n_std em = length (em_std em) \<and>
      partitioned test_E (em_t em) (em_test em) \<and> n_test em = length (em_test em)"
  using partition_after_init [of "''simple''" std_E test_E calc_E] by simp

text \<open>
  The reordered arrays of example E: the object tagged \<^verbatim>\<open>misc\<close> and the one tagged
  \<^verbatim>\<open>event\<close> are gone, persons come first and are sorted by id.
\<close>

lemma example_E_arrays:
  "em_std em_E = [mention ''per'' 2, mention ''per'' 9, mention ''loc'' 5, mention ''org'' 4,
                  mention ''locorg'' 3]"
  "em_test em_E = [mention ''per'' 2, mention ''org'' 4]"
  "map (tag_range (em_s em_E)) allowed_tags = [(0, 2), (2, 3), (3, 4), (4, 5)]"
  "map (tag_range (em_t em_E)) allowed_tags = [(0, 1), (1, 1), (1, 2), (2, 2)]"
  by (simp_all add: em_E_def constructed_fields reordered_def block_def std_E_def test_E_def
      mention_def allowed_tags_def tag_ranges)

section \<open>The matrix of priorities\<close>

lemma build_matrix_entry:
  "i < length std \<Longrightarrow> j < length test \<Longrightarrow>
   build_matrix c std test ! i ! j = priority c (std ! i) (test ! j)"
  by (simp add: build_matrix_def)


text \<open>
  The same holds on every input: the object keeps the mode, every entry of the matrix is
  the priority that the scorer gives to the two objects, and the two modes yield the same
  matrix.
\<close>

lemma matrix_same_in_both_modes:
  assumes "mode = ''regular'' \<or> mode = ''simple''"
  shows "\<exists>em. EvaluationMatrix_init std test c mode = Inr em \<and> em_mode em = mode \<and>
           em_calc em = c \<and> length (em_m em) = n_std em \<and>
           (\<forall>i < n_std em. length (em_m em ! i) = n_test em \<and>
              (\<forall>j < n_test em. em_m em ! i ! j = priority c (em_std em ! i) (em_test em ! j))) \<and>
           (\<forall>mode'. mode' = ''regular'' \<or> mode' = ''simple'' \<longrightarrow>
              (\<exists>em'. EvaluationMatrix_init std test c mode' = Inr em' \<and> em_m em' = em_m em))"
  using assms by (auto simp: init_valid constructed_fields build_matrix_def)

text \<open>
  For the scorer \<open>mode_scorer\<close>, which depends on the mode it is handed, no calculator
  given to the constructor yields in both modes the matrix that the specification
  describes.
\<close>

lemma no_calculator_sees_the_mode:
  "\<not> (\<exists>c. map_sum id em_m (EvaluationMatrix_init std_G test_G c ''regular'') =
             Inr (spec_matrix mode_scorer ''regular'' std_G test_G) \<and>
           map_sum id em_m (EvaluationMatrix_init std_G test_G c ''simple'') =
             Inr (spec_matrix mode_scorer ''simple'' std_G test_G))"
  by (simp add: init_valid constructed_fields spec_matrix_def reordered_def block_def std_G_def
      test_G_def mention_def build_matrix_def mode_scorer_def)

section \<open>Empty collections\<close>

lemma createSimple_zero:
  "precision (createSimple 0 a b) = 0" "recall (createSimple 0 a b) = 0"
  "f1 (createSimple 0 a b) = 0"
  by (simp_all add: createSimple_def)

lemma evaluate_empty_overall:
  "evaluate em [] '''' = Inr (createSimple 0 (n_std em) (n_test em))"
  by (simp add: evaluate_def allowed_tags_def true_positives_def)

lemma evaluate_empty:
  "evaluate em [] tg =
     (if tg \<in> set allowed_tags then
        bindE (lookup (em_s em) tg) (\<lambda>sd.
        bindE (lookup (em_t em) tg) (\<lambda>td. Inr (createSimple 0 (td_size sd) (td_size td))))
      else Inr (createSimple 0 (n_std em) (n_test em)))"
  by (simp add: evaluate_def reduce_def bindE_def true_positives_def split: sum.splits)

lemma leaf_empty: "leaf em [] = Inr (Some (0, []))"
  by (simp add: leaf_def evaluate_empty_overall bindE_def createSimple_zero)

lemma search_empty_std: "recursiveSearch em [] test [] = Inr (Some (0, []))"
  by (simp add: leaf_empty)

lemma search_empty_test: "recursiveSearch em std [] [] = Inr (Some (0, []))"
  by (cases std) (simp_all add: leaf_empty)

lemma search_empty:
  "n_std em = 0 \<or> n_test em = 0 \<Longrightarrow>
   recursiveSearch em [0 ..< n_std em] [0 ..< n_test em] [] = Inr (Some (0, []))"
  using search_empty_std [of em "[0 ..< n_test em]"] search_empty_test [of em "[0 ..< n_std em]"]
  by auto

lemma metrics_empty:
  assumes s: "em_s em = tag_table std" and t: "em_t em = tag_table test"
  shows "\<exists>em'. for_each (metrics_step []) allowed_tags
            (em\<lparr>em_metrics := (em_metrics em)(''overall'' \<mapsto> createSimple 0 a b)\<rparr>) = Inr em' \<and>
          (\<forall>k \<in> set (''overall'' # allowed_tags).
             \<exists>a b. em_metrics em' k = Some (createSimple 0 a b))"
  apply (simp add: allowed_tags_def metrics_step_def evaluate_empty bindE_def lookup_def s t
      tag_table_def)
  apply blast
  done

text \<open>
  Claim C8.  If, after the filtering by tags, the standard collection or the test
  collection is empty, \<open>findSolution\<close> returns the empty matching, and every entry of the
  metrics (\<^verbatim>\<open>overall\<close> and each tag) is built from \<open>tp = 0\<close>, so that its precision, its
  recall and its F1 are 0 under the formulas of the specification.
\<close>

theorem empty_input:
  assumes "EvaluationMatrix_init std test c mode = Inr em"
    and "n_std em = 0 \<or> n_test em = 0"
  shows "\<exists>em'. findSolution em = Inr ([], em') \<and>
           (\<forall>k \<in> set (''overall'' # allowed_tags).
              \<exists>a b. em_metrics em' k = Some (createSimple 0 a b) \<and>
                precision (createSimple 0 a b) = 0 \<and> recall (createSimple 0 a b) = 0 \<and>
                f1 (createSimple 0 a b) = 0)"
proof -
  from init_Inr(1) [OF assms(1)]
  have s: "em_s em = tag_table std" and t: "em_t em = tag_table test"
    by (simp_all add: constructed_fields)
  from metrics_empty [OF s t, of "n_std em" "n_test em"]
  obtain em' where 1: "for_each (metrics_step []) allowed_tags
      (em\<lparr>em_metrics := (em_metrics em)(''overall'' \<mapsto>
         createSimple 0 (n_std em) (n_test em))\<rparr>) = Inr em'"
    and 2: "\<forall>k \<in> set (''overall'' # allowed_tags).
      \<exists>a b. em_metrics em' k = Some (createSimple 0 a b)"
    by blast
  have "findSolution em = Inr ([], em')"
    by (simp add: findSolution_def search_empty [OF assms(2)] bindE_def evaluate_empty_overall 1)
  with 2 show ?thesis
    by (simp add: createSimple_zero)
qed

theorem empty_input_witness:
  "\<exists>em. EvaluationMatrix_init std_F test_F calc_E ''regular'' = Inr em \<and> n_std em = 0 \<and>
      n_test em = 2 \<and>
      (\<exists>em'. findSolution em = Inr ([], em') \<and>
         (\<exists>mt. em_metrics em' ''overall'' = Some mt \<and> precision mt = 0 \<and> recall mt = 0 \<and>
            f1 mt = 0))"
proof -
  let ?em = "constructed std_F test_F calc_E ''regular''"
  have i: "EvaluationMatrix_init std_F test_F calc_E ''regular'' = Inr ?em"
    by (simp add: init_valid)
  have n: "n_std ?em = 0" "n_test ?em = 2"
    by (simp_all add: constructed_fields reordered_def block_def std_F_def test_F_def mention_def
        person_def)
  from n(1) have "n_std ?em = 0 \<or> n_test ?em = 0" by simp
  from empty_input [OF i this] obtain em' where
    "findSolution ?em = Inr ([], em')"
    "\<exists>a b. em_metrics em' ''overall'' = Some (createSimple 0 a b) \<and>
       precision (createSimple 0 a b) = 0 \<and> recall (createSimple 0 a b) = 0 \<and>
       f1 (createSimple 0 a b) = 0"
    by auto
  with i n show ?thesis by blast
qed

section \<open>Invariants of the search\<close>

lemma for_each_invariant:
  assumes "for_each body xs st = Inr st'" and "I st"
    and "\<And>x s s'. x \<in> set xs \<Longrightarrow> I s \<Longrightarrow> body x s = Inr s' \<Longrightarrow> I s'"
  shows "I st'"
  using assms
proof (induction xs arbitrary: st)
  case Nil
  then show ?case by simp
next
  case (Cons x xs)
  from Cons.prems(1) obtain s1 where b: "body x st = Inr s1" and r: "for_each body xs s1 = Inr st'"
    by (auto split: sum.splits)
  have s1: "I s1" using Cons.prems(3) [of x st s1] Cons.prems(2) b by simp
  show ?case
  proof (rule Cons.IH [OF r s1])
    fix y s s' assume "y \<in> set xs" "I s" "body y s = Inr s'"
    then show "I s'" using Cons.prems(3) [of y s s'] by simp
  qed
qed

lemma index_from_Inr:
  "index_from k t xs = Inr i \<Longrightarrow> k \<le> i \<and> i - k < length xs \<and> xs ! (i - k) = t"
proof (induction xs arbitrary: k)
  case Nil
  then show ?case by simp
next
  case (Cons x xs)
  show ?case
  proof (cases "x = t")
    case True
    with Cons.prems show ?thesis by simp
  next
    case False
    with Cons.prems have "index_from (Suc k) t xs = Inr i" by simp
    from Cons.IH [OF this] show ?thesis
      by (auto simp: Suc_diff_Suc less_eq_Suc_le nth_Cons')
  qed
qed

lemma index_Inr: "index test t = Inr i \<Longrightarrow> i < length test \<and> test ! i = t"
  using index_from_Inr [of 0 t test i] by (simp add: index_def)

lemma remove_at:
  assumes "distinct test" and "i < length test"
  shows "distinct (take i test @ drop (i + 1) test)"
    and "set (take i test @ drop (i + 1) test) = set test - {test ! i}"
proof -
  have eq: "test = take i test @ test ! i # drop (Suc i) test"
    using assms(2) by (rule id_take_nth_drop)
  have d: "distinct (take i test @ test ! i # drop (Suc i) test)"
    using assms(1) eq by simp
  from d show "distinct (take i test @ drop (i + 1) test)" by simp
  have "set test = set (take i test @ test ! i # drop (Suc i) test)"
    using eq by simp
  with d show "set (take i test @ drop (i + 1) test) = set test - {test ! i}"
    by auto
qed

lemma findMatches_set:
  "t \<in> set (findMatches em cur test) \<Longrightarrow> t \<in> set test \<and> em_m em ! cur ! t \<noteq> 0"
  by (auto simp: findMatches_def Let_def split: if_splits)

lemma keep_max_cases: "keep_max a b = Inr c \<Longrightarrow> c = a \<or> c = b"
  by (auto simp: keep_max_def split: option.splits if_splits)

lemma leaf_Inr: "leaf em ps = Inr r \<Longrightarrow> \<exists>q. r = Some (q, ps)"
  by (auto simp: leaf_def bindE_def split: sum.splits)

text \<open>One turn of the loop over the candidates keeps the best result so far a good one.\<close>

lemma candidate_step_ok:
  assumes ok: "search_state_ok em (cur # rest) test ps"
    and t: "t \<in> set (findMatches em cur test)"
    and IH: "\<And>test' ps' r. search_state_ok em rest test' ps' \<Longrightarrow>
               search test' ps' = Inr r \<Longrightarrow> result_ok em r"
    and st: "result_ok em (max_res st)"
    and step: "candidate_step em cur (cur # rest) test ps search t st = Inr st'"
  shows "result_ok em (max_res st')"
proof -
  from step obtain i where i: "index test t = Inr i"
    by (auto simp: candidate_step_def bindE_def split: sum.splits)
  from index_Inr [OF i] have il: "i < length test" and it: "test ! i = t" by simp_all
  from findMatches_set [OF t] have tt: "t \<in> set test" and nz: "em_m em ! cur ! t \<noteq> 0"
    by simp_all
  let ?sc = "fold (scan_step em cur t) (cur # rest)
               \<lparr>skip_test_object = False, alt_count = 0,
                scan_max_alternatives = pair_max_alternatives st\<rparr>"
  show ?thesis
  proof (cases "skip_test_object ?sc")
    case True
    with step i have "max_res st' = max_res st"
      by (auto simp: candidate_step_def bindE_def Let_def)
    with st show ?thesis by simp
  next
    case False
    let ?test' = "take i test @ drop (i + 1) test"
    let ?ps' = "ps @ [(cur, t)]"
    from step i False obtain res best where
      res: "search ?test' ?ps' = Inr res" and
      best: "keep_max (max_res st) res = Inr best" and
      st': "max_res st' = best"
      by (auto simp: candidate_step_def bindE_def Let_def split: sum.splits)
    from ok have d: "distinct test" by (simp add: search_state_ok_def)
    note ra = remove_at [OF d il, unfolded it]
    have "search_state_ok em rest ?test' ?ps'"
      using ok tt nz ra
      by (auto simp: search_state_ok_def good_pairs_def)
    from IH [OF this res] have "result_ok em res" .
    with keep_max_cases [OF best] st st' show ?thesis by auto
  qed
qed

lemma search_result_ok:
  "search_state_ok em std test ps \<Longrightarrow> recursiveSearch em std test ps = Inr r \<Longrightarrow>
   result_ok em r"
proof (induction std arbitrary: test ps r)
  case Nil
  from leaf_Inr [of em ps r] Nil show ?case
    by (auto simp: result_ok_def search_state_ok_def)
next
  case (Cons cur rest)
  show ?case
  proof (cases test)
    case Nil
    with Cons.prems leaf_Inr [of em ps r] show ?thesis
      by (auto simp: result_ok_def search_state_ok_def)
  next
    case (Cons t0 ts)
    let ?init = "\<lparr>max_res = None, possible_pairs_count = 0, pair_max_alternatives = 0\<rparr>"
    let ?body = "candidate_step em cur (cur # rest) test ps
                   (\<lambda>test' pairs'. recursiveSearch em rest test' pairs')"
    from Cons.prems(2) Cons obtain st where
      loop: "for_each ?body (findMatches em cur test) ?init = Inr st" and
      fin: "(if skip_guard st
             then bindE (recursiveSearch em rest test ps) (\<lambda>res. keep_max (max_res st) res)
             else Inr (max_res st)) = Inr r"
      by (auto simp: bindE_def split: sum.splits)
    have "result_ok em (max_res st)"
    proof (rule for_each_invariant [OF loop, where I = "\<lambda>s. result_ok em (max_res s)"])
      show "result_ok em (max_res ?init)" by (simp add: result_ok_def)
    next
      fix x s s'
      assume "x \<in> set (findMatches em cur test)" "result_ok em (max_res s)" "?body x s = Inr s'"
      then show "result_ok em (max_res s')"
        using candidate_step_ok [OF Cons.prems(1), of x
            "\<lambda>test' pairs'. recursiveSearch em rest test' pairs'" s s']
          Cons.IH by blast
    qed
    moreover have "search_state_ok em rest test ps"
      using Cons.prems(1) by (auto simp: search_state_ok_def)
    ultimately show ?thesis
      using fin Cons.IH [of test ps] keep_max_cases
      by (auto simp: bindE_def split: if_splits sum.splits)
  qed
qed

lemma findSolution_good:
  assumes "findSolution em = Inr (matching, em')"
  shows "good_pairs em matching"
proof -
  from assms obtain res where
    r: "recursiveSearch em [0 ..< n_std em] [0 ..< n_test em] [] = Inr (Some res)" and
    m: "matching = snd res"
    by (auto simp: findSolution_def bindE_def split: sum.splits option.splits)
  have "search_state_ok em [0 ..< n_std em] [0 ..< n_test em] []"
    by (simp add: search_state_ok_def good_pairs_def)
  from search_result_ok [OF this r] m show ?thesis
    by (simp add: result_ok_def)
qed

section \<open>Evaluating the examples\<close>

lemma example_matrices:
  "em_m em_A = [[1 / 2, 1 / 2], [1, 0], [0, 1]]"
  "em_m em_B = [[1 / 4, 1 / 4], [3 / 4, 0], [0, 3 / 4]]"
  "em_m em_C = [[1], [1 / 2]]"
  "em_m em_D = [[1, 0, 0], [1 / 2, 1 / 2, 1 / 2], [0, 1, 0], [0, 0, 1]]"
  "em_m em_E = [[1, 0], [0, 0], [0, 0], [0, 1], [0, 0]]"
  by (simp_all add: em_A_def em_B_def em_C_def em_D_def em_E_def constructed_fields reordered_def
      block_def std_A_def test_A_def std_C_def test_C_def std_D_def test_D_def std_E_def
      test_E_def person_def mention_def build_matrix_def calc_A_def calc_B_def calc_C_def
      calc_D_def calc_E_def table_calc_def priority_A_def priority_B_def priority_C_def
      priority_D_def same_id_def)

lemma example_matchings:
  "map_sum id fst (findSolution em_B) = Inr [(0, 0), (2, 1)]"
  "map_sum id fst (findSolution em_C) = Inr [(1, 0)]"
  "map_sum id fst (findSolution em_D) = Inr [(1, 0), (2, 1), (3, 2)]"
  "map_sum id fst (findSolution em_E) = Inr [(0, 0), (3, 1)]"
  by code_simp+

lemma matching_of:
  "map_sum id fst (findSolution em) = Inr matching \<Longrightarrow>
   \<exists>em'. findSolution em = Inr (matching, em')"
  by (cases "findSolution em") auto

text \<open>
  Claim C3.  In the matching that \<open>findSolution\<close> returns, every standard index occurs
  in at most one pair and every test index occurs in at most one pair.
\<close>

theorem no_reuse:
  assumes "findSolution em = Inr (matching, em')"
  shows "distinct (map fst matching) \<and> distinct (map snd matching)"
  using findSolution_good [OF assms] by (simp add: good_pairs_def)

theorem no_reuse_witness:
  "\<exists>em'. findSolution em_B = Inr ([(0, 0), (2, 1)], em') \<and>
      distinct (map fst [(0 :: nat, 0 :: nat), (2, 1)]) \<and>
      distinct (map snd [(0 :: nat, 0 :: nat), (2, 1)])"
proof -
  from matching_of [OF example_matchings(1)] obtain em' where
    fs: "findSolution em_B = Inr ([(0, 0), (2, 1)], em')" ..
  from no_reuse [OF fs] fs show ?thesis by blast
qed

text \<open>
  Claim C10.  Every pair \<open>(s, t)\<close> of the matching that \<open>findSolution\<close> returns lies
  within the matrix and has a nonzero priority \<open>m[s][t]\<close>, which is the priority the scorer
  gave to the two objects: a pair of priority 0 is never committed.
\<close>

theorem nonzero_priority:
  assumes "EvaluationMatrix_init std test c mode = Inr em"
    and "findSolution em = Inr (matching, em')"
  shows "\<forall>p \<in> set matching. fst p < n_std em \<and> snd p < n_test em \<and>
           em_m em ! fst p ! snd p \<noteq> 0 \<and>
           priority c (em_std em ! fst p) (em_test em ! snd p) \<noteq> 0"
proof
  fix p assume p: "p \<in> set matching"
  with findSolution_good [OF assms(2)]
  have 1: "fst p < n_std em" "snd p < n_test em" "em_m em ! fst p ! snd p \<noteq> 0"
    by (simp_all add: good_pairs_def)
  from init_Inr(1) [OF assms(1)] have
    "em_m em = build_matrix c (em_std em) (em_test em)" "n_std em = length (em_std em)"
    "n_test em = length (em_test em)"
    by (simp_all add: constructed_fields)
  with 1 build_matrix_entry [of "fst p" "em_std em" "snd p" "em_test em" c]
  show "fst p < n_std em \<and> snd p < n_test em \<and>
           em_m em ! fst p ! snd p \<noteq> 0 \<and>
           priority c (em_std em ! fst p) (em_test em ! snd p) \<noteq> 0"
    by simp
qed

theorem nonzero_priority_witness:
  "EvaluationMatrix_init std_E test_E calc_E ''simple'' = Inr em_E \<and>
   (\<exists>em'. findSolution em_E = Inr ([(0, 0), (3, 1)], em')) \<and>
   em_m em_E ! 0 ! 0 \<noteq> 0 \<and> em_m em_E ! 3 ! 1 \<noteq> 0"
proof -
  have i: "EvaluationMatrix_init std_E test_E calc_E ''simple'' = Inr em_E"
    by (simp add: init_valid em_E_def)
  from matching_of [OF example_matchings(4)] obtain em' where
    fs: "findSolution em_E = Inr ([(0, 0), (3, 1)], em')" ..
  from nonzero_priority [OF i fs] have "em_m em_E ! 0 ! 0 \<noteq> 0 \<and> em_m em_E ! 3 ! 1 \<noteq> 0"
    by simp
  with i fs show ?thesis by blast
qed

section \<open>The loop over the candidates and the guard of the skip branch\<close>

text \<open>
  What the scan of the remaining standard indices computes for one candidate, what the
  loop over the candidates leaves in its counters, and so when the guard of lines 139 and
  140 holds: when \<^verbatim>\<open>_findMatches\<close> gave no candidate, or gave exactly one that has more than
  one alternative.  The count is taken before the scan drops a candidate.
\<close>

lemma scan_fold:
  "alt_count sc \<le> scan_max_alternatives sc \<Longrightarrow>
   fold (scan_step em cur t) std sc =
     \<lparr>skip_test_object =
        (skip_test_object sc \<or> (em_m em ! cur ! t < 1 \<and> (\<exists>k \<in> set std. em_m em ! k ! t = 1))),
      alt_count = alt_count sc + alternatives em std t,
      scan_max_alternatives = max (scan_max_alternatives sc) (alt_count sc + alternatives em std t)\<rparr>"
proof (induction std arbitrary: sc)
  case Nil
  then show ?case by (simp add: alternatives_def max_def)
next
  case (Cons k std)
  have "alt_count (scan_step em cur t k sc) \<le> scan_max_alternatives (scan_step em cur t k sc)"
    using Cons.prems by (simp add: scan_step_def Let_def)
  from Cons.IH [OF this] show ?case
    using Cons.prems by (auto simp: scan_step_def Let_def alternatives_def max_def)
qed

lemma pruned_iff:
  "pruned em cur std t \<longleftrightarrow> em_m em ! cur ! t < 1 \<and> (\<exists>k \<in> set std. em_m em ! k ! t = 1)"
  by (simp add: pruned_def scan_fold)

lemma candidate_step_counters:
  assumes "candidate_step em cur std test ps search t st = Inr st'"
  shows "possible_pairs_count st' = possible_pairs_count st + 1"
    and "pair_max_alternatives st' = max (pair_max_alternatives st) (alternatives em std t)"
  using assms
  by (auto simp: candidate_step_def bindE_def Let_def scan_fold split: sum.splits if_splits)

lemma loop_counters:
  "for_each (candidate_step em cur std test ps search) cands st = Inr st' \<Longrightarrow>
   possible_pairs_count st' = possible_pairs_count st + length cands \<and>
   pair_max_alternatives st' =
     fold (\<lambda>t p. max p (alternatives em std t)) cands (pair_max_alternatives st)"
proof (induction cands arbitrary: st)
  case Nil
  then show ?case by simp
next
  case (Cons t cands)
  from Cons.prems obtain s1 where
    1: "candidate_step em cur std test ps search t st = Inr s1" and
    2: "for_each (candidate_step em cur std test ps search) cands s1 = Inr st'"
    by (auto split: sum.splits)
  from Cons.IH [OF 2] candidate_step_counters [OF 1] show ?case by simp
qed

lemma code_guard:
  assumes "for_each (candidate_step em cur std test ps search) cands
             \<lparr>max_res = None, possible_pairs_count = 0, pair_max_alternatives = 0\<rparr> = Inr st"
  shows "skip_guard st \<longleftrightarrow> cands = [] \<or> (\<exists>t. cands = [t] \<and> alternatives em std t > 1)"
proof -
  from loop_counters [OF assms] have
    c: "possible_pairs_count st = length cands" and
    p: "pair_max_alternatives st = fold (\<lambda>t p. max p (alternatives em std t)) cands 0"
    by simp_all
  show ?thesis
  proof (cases cands)
    case Nil
    with c show ?thesis by (simp add: skip_guard_def)
  next
    case (Cons t ts)
    show ?thesis
    proof (cases ts)
      case Nil
      with Cons c p show ?thesis by (simp add: skip_guard_def)
    next
      case (Cons u us)
      with \<open>cands = t # ts\<close> c show ?thesis by (simp add: skip_guard_def)
    qed
  qed
qed

lemma two_alternatives:
  assumes "cur \<in> set std" "k \<in> set std" "k \<noteq> cur" "em_m em ! cur ! t \<noteq> 0" "em_m em ! k ! t \<noteq> 0"
  shows "alternatives em std t > 1"
proof -
  have "{cur, k} \<subseteq> set (filter (\<lambda>k. em_m em ! k ! t \<noteq> 0) std)"
    using assms by simp
  then have "card {cur, k} \<le> card (set (filter (\<lambda>k. em_m em ! k ! t \<noteq> 0) std))"
    by (intro card_mono) simp_all
  also have "\<dots> \<le> length (filter (\<lambda>k. em_m em ! k ! t \<noteq> 0) std)"
    by (rule card_length)
  finally show ?thesis using assms(3) by (simp add: alternatives_def)
qed

lemma guard_versus_spec:
  assumes loop: "for_each (candidate_step em cur std test ps search) (findMatches em cur test)
             \<lparr>max_res = None, possible_pairs_count = 0, pair_max_alternatives = 0\<rparr> = Inr st"
    and cur: "cur \<in> set std"
  shows "spec_skip_condition em cur std test \<longleftrightarrow>
           skip_guard st \<or> (2 \<le> length (findMatches em cur test) \<and> surviving em cur std test = [])"
proof -
  let ?c = "findMatches em cur test"
  note g = code_guard [OF loop]
  show ?thesis
  proof (cases ?c)
    case Nil
    with g show ?thesis by (simp add: spec_skip_condition_def surviving_def)
  next
    case (Cons t ts)
    show ?thesis
    proof (cases ts)
      case Nil
      with Cons have c: "?c = [t]" by simp
      then have "t \<in> set ?c" by simp
      then have nz: "em_m em ! cur ! t \<noteq> 0"
        by (auto simp: findMatches_def Let_def split: if_splits)
      have "pruned em cur std t \<Longrightarrow> alternatives em std t > 1"
      proof -
        assume "pruned em cur std t"
        then obtain k where k: "k \<in> set std" "em_m em ! k ! t = 1" "em_m em ! cur ! t < 1"
          by (auto simp: pruned_iff)
        then have "k \<noteq> cur" by auto
        with two_alternatives [OF cur k(1) _ nz] k(2) show ?thesis by simp
      qed
      with g c show ?thesis
        by (auto simp: spec_skip_condition_def surviving_def)
    next
      case (Cons u us)
      with \<open>?c = t # ts\<close> g show ?thesis
        by (simp add: spec_skip_condition_def)
    qed
  qed
qed

text \<open>
  When the head index has two or more candidates and the scan drops them all, no branch
  is explored and the result is \<^verbatim>\<open>None\<close>.
\<close>

lemma index_from_total: "t \<in> set xs \<Longrightarrow> \<exists>i. index_from k t xs = Inr i"
  by (induction xs arbitrary: k) auto

lemma index_total: "t \<in> set test \<Longrightarrow> \<exists>i. index test t = Inr i"
  by (simp add: index_def index_from_total)

lemma pruned_step:
  assumes "t \<in> set test" "pruned em cur std t"
  shows "\<exists>st'. candidate_step em cur std test ps search t st = Inr st' \<and> max_res st' = max_res st"
proof -
  from index_total [OF assms(1)] obtain i where "index test t = Inr i" ..
  with assms(2) show ?thesis
    by (simp add: candidate_step_def bindE_def Let_def scan_fold pruned_iff)
qed

lemma pruned_loop:
  "\<forall>t \<in> set cands. t \<in> set test \<and> pruned em cur std t \<Longrightarrow>
   \<exists>st'. for_each (candidate_step em cur std test ps search) cands st = Inr st' \<and>
         max_res st' = max_res st"
proof (induction cands arbitrary: st)
  case Nil
  then show ?case by simp
next
  case (Cons t cands)
  from Cons.prems pruned_step [of t test em cur std ps search st] obtain s1 where
    1: "candidate_step em cur std test ps search t st = Inr s1" "max_res s1 = max_res st"
    by auto
  from Cons.IH [of s1] Cons.prems obtain st' where
    "for_each (candidate_step em cur std test ps search) cands s1 = Inr st'"
    "max_res st' = max_res s1"
    by auto
  with 1 show ?case by simp
qed

lemma all_pruned_None:
  assumes two: "2 \<le> length (findMatches em cur test)"
    and none: "surviving em cur (cur # rest) test = []"
  shows "recursiveSearch em (cur # rest) test ps = Inr None"
proof -
  let ?c = "findMatches em cur test"
  let ?init = "\<lparr>max_res = None, possible_pairs_count = 0, pair_max_alternatives = 0\<rparr>"
  let ?body = "candidate_step em cur (cur # rest) test ps
                 (\<lambda>test' pairs'. recursiveSearch em rest test' pairs')"
  from two obtain t0 ts where test: "test = t0 # ts"
    by (cases test) (auto simp: findMatches_def)
  have "\<forall>t \<in> set ?c. t \<in> set test \<and> pruned em cur (cur # rest) t"
  proof
    fix t assume t: "t \<in> set ?c"
    then have "t \<in> set test" by (auto simp: findMatches_def Let_def split: if_splits)
    moreover from none t have "pruned em cur (cur # rest) t"
      by (auto simp: surviving_def filter_empty_conv)
    ultimately show "t \<in> set test \<and> pruned em cur (cur # rest) t" ..
  qed
  from pruned_loop [OF this, of ps "\<lambda>test' pairs'. recursiveSearch em rest test' pairs'" ?init]
  obtain st where loop: "for_each ?body ?c ?init = Inr st" and m: "max_res st = None"
    by auto
  from code_guard [OF loop] two have "\<not> skip_guard st" by auto
  have "recursiveSearch em (cur # rest) (t0 # ts) ps =
      bindE (for_each ?body ?c ?init) (\<lambda>st.
        if skip_guard st then
          bindE (recursiveSearch em rest test ps) (\<lambda>res. keep_max (max_res st) res)
        else Inr (max_res st))"
    unfolding test by simp
  with loop m \<open>\<not> skip_guard st\<close> show ?thesis
    by (simp add: test bindE_def)
qed

section \<open>What the search returns: the best of the leaves it reaches\<close>

lemma for_each_prefix_invariant:
  assumes "for_each body xs st = Inr st'" and "I pre st"
    and "\<And>p x s s'. I p s \<Longrightarrow> body x s = Inr s' \<Longrightarrow> I (p @ [x]) s'"
  shows "I (pre @ xs) st'"
  using assms(1,2)
proof (induction xs arbitrary: st pre)
  case Nil
  then show ?case by simp
next
  case (Cons x xs)
  from Cons.prems(1) obtain s1 where b: "body x st = Inr s1" and r: "for_each body xs s1 = Inr st'"
    by (auto split: sum.splits)
  from assms(3) [OF Cons.prems(2) b] have "I (pre @ [x]) s1" .
  from Cons.IH [OF r this] show ?case by simp
qed

lemma index_from_remove1:
  "index_from k t xs = Inr i \<Longrightarrow> take (i - k) xs @ drop (i - k + 1) xs = remove1 t xs"
proof (induction xs arbitrary: k)
  case Nil
  then show ?case by simp
next
  case (Cons x xs)
  show ?case
  proof (cases "x = t")
    case True
    with Cons.prems show ?thesis by simp
  next
    case False
    with Cons.prems have 1: "index_from (Suc k) t xs = Inr i" by simp
    from index_from_Inr [OF 1] have "Suc k \<le> i" by simp
    then have "i - k = Suc (i - Suc k)" by simp
    with Cons.IH [OF 1] False show ?thesis by simp
  qed
qed

lemma index_remove1: "index test t = Inr i \<Longrightarrow> take i test @ drop (i + 1) test = remove1 t test"
  using index_from_remove1 [of 0 t test i] by (simp add: index_def)

lemma leaf_best: "leaf em ps = Inr r \<Longrightarrow> best_of em [ps] r"
  by (auto simp: leaf_def evaluate_def allowed_tags_def bindE_def best_of_def overall_f1_def)

lemma best_of_append:
  assumes "best_of em xs a" "best_of em ys b" "keep_max a b = Inr c"
  shows "best_of em (xs @ ys) c"
  using assms
  by (auto simp: best_of_def keep_max_def split: option.splits if_splits)

lemma candidate_step_best:
  assumes IH: "\<And>test' ps' r. search test' ps' = Inr r \<Longrightarrow> best_of em (expl test' ps') r"
    and st: "best_of em L (max_res st)"
    and step: "candidate_step em cur std test ps search t st = Inr st'"
  shows "best_of em (L @ (if pruned em cur std t then [] else expl (remove1 t test) (ps @ [(cur, t)])))
           (max_res st')"
proof -
  from step obtain i where i: "index test t = Inr i"
    by (auto simp: candidate_step_def bindE_def split: sum.splits)
  show ?thesis
  proof (cases "pruned em cur std t")
    case True
    with step i have "max_res st' = max_res st"
      by (auto simp: candidate_step_def bindE_def Let_def scan_fold pruned_iff)
    with st True show ?thesis by simp
  next
    case False
    with step i obtain res best where
      res: "search (take i test @ drop (i + 1) test) (ps @ [(cur, t)]) = Inr res" and
      best: "keep_max (max_res st) res = Inr best" and
      st': "max_res st' = best"
      by (auto simp: candidate_step_def bindE_def Let_def scan_fold pruned_iff split: sum.splits)
    from IH [OF res] index_remove1 [OF i]
    have "best_of em (expl (remove1 t test) (ps @ [(cur, t)])) res"
      by simp
    from best_of_append [OF st this best] st' False show ?thesis by simp
  qed
qed

lemma search_best:
  "recursiveSearch em std test ps = Inr r \<Longrightarrow> best_of em (explored em std test ps) r"
proof (induction std arbitrary: test ps r)
  case Nil
  then show ?case by (simp add: leaf_best)
next
  case (Cons cur rest)
  show ?case
  proof (cases test)
    case Nil
    with Cons.prems show ?thesis by (simp add: leaf_best)
  next
    case (Cons t0 ts)
    let ?init = "\<lparr>max_res = None, possible_pairs_count = 0, pair_max_alternatives = 0\<rparr>"
    let ?search = "\<lambda>test' pairs'. recursiveSearch em rest test' pairs'"
    let ?body = "candidate_step em cur (cur # rest) test ps ?search"
    let ?c = "findMatches em cur test"
    let ?L = "\<lambda>cs. concat (map (\<lambda>t. explored em rest (remove1 t test) (ps @ [(cur, t)]))
                 (filter (\<lambda>t. \<not> pruned em cur (cur # rest) t) cs))"
    from Cons.prems Cons obtain st where
      loop: "for_each ?body ?c ?init = Inr st" and
      fin: "(if skip_guard st
             then bindE (recursiveSearch em rest test ps) (\<lambda>res. keep_max (max_res st) res)
             else Inr (max_res st)) = Inr r"
      by (auto simp: bindE_def split: sum.splits)
    have "best_of em (?L ([] @ ?c)) (max_res st)"
    proof (rule for_each_prefix_invariant [OF loop, where I = "\<lambda>p s. best_of em (?L p) (max_res s)"])
      show "best_of em (?L []) (max_res ?init)" by (simp add: best_of_def)
    next
      fix p x s s'
      assume "best_of em (?L p) (max_res s)" "?body x s = Inr s'"
      from candidate_step_best [where expl = "explored em rest", OF Cons.IH this]
      show "best_of em (?L (p @ [x])) (max_res s')"
        by (cases "pruned em cur (cur # rest) x") simp_all
    qed
    then have 1: "best_of em (?L ?c) (max_res st)" by simp
    note g = code_guard [OF loop]
    show ?thesis
    proof (cases "skip_guard st")
      case True
      with fin obtain res where
        res: "recursiveSearch em rest test ps = Inr res" and k: "keep_max (max_res st) res = Inr r"
        by (auto simp: bindE_def split: sum.splits)
      from best_of_append [OF 1 Cons.IH [OF res] k] True g Cons show ?thesis
        by (auto simp: surviving_def)
    next
      case False
      with fin have "r = max_res st" by simp
      with 1 False g Cons show ?thesis
        by (auto simp: surviving_def split: list.splits)
    qed
  qed
qed

text \<open>
  So the matching that \<open>findSolution\<close> returns is one of the leaves the pruned search
  reaches, and no other such leaf has a greater overall F1.  A pairing that the search
  does not reach is not compared.  The comparison is that of the exact reals of the
  model; in floating point two leaves whose F1 values round to the same number tie, and
  the first is kept.
\<close>

lemma findSolution_best:
  assumes "findSolution em = Inr (matching, em')"
  shows "matching \<in> set (explored em [0 ..< n_std em] [0 ..< n_test em] []) \<and>
         (\<forall>x \<in> set (explored em [0 ..< n_std em] [0 ..< n_test em] []).
            overall_f1 em x \<le> overall_f1 em matching)"
proof -
  from assms obtain res where
    r: "recursiveSearch em [0 ..< n_std em] [0 ..< n_test em] [] = Inr (Some res)" and
    m: "matching = snd res"
    by (auto simp: findSolution_def bindE_def split: sum.splits option.splits)
  from search_best [OF r] m show ?thesis
    by (auto simp: best_of_def)
qed

section \<open>Inputs on which the search goes wrong\<close>

lemma example_inits:
  "EvaluationMatrix_init std_A test_A calc_A ''regular'' = Inr em_A"
  "EvaluationMatrix_init std_A test_A calc_B ''regular'' = Inr em_B"
  "EvaluationMatrix_init std_C test_C calc_C ''regular'' = Inr em_C"
  "EvaluationMatrix_init std_D test_D calc_D ''regular'' = Inr em_D"
  by (simp_all add: init_valid em_A_def em_B_def em_C_def em_D_def)

lemma None_is_TypeError:
  "recursiveSearch em [0 ..< n_std em] [0 ..< n_test em] [] = Inr None \<Longrightarrow>
   findSolution em = Inl TypeError"
  by (simp add: findSolution_def bindE_def)

text \<open>
  Claim C4 says that \<open>_recursiveSearch\<close> always returns a pair of an F1 value and a
  matching, never \<^verbatim>\<open>None\<close>, so that \<open>findSolution\<close> completes without an error of its
  own.  On example A it does not: both candidates of standard index 0 are reserved for
  their perfect partners and dropped, the count of candidates is 2, so the branch that
  leaves index 0 out is not taken either; the search returns \<^verbatim>\<open>None\<close> and the
  unpacking in \<open>findSolution\<close> raises \<^verbatim>\<open>TypeError\<close>.
\<close>

theorem search_returns_None:
  "EvaluationMatrix_init std_A test_A calc_A ''regular'' = Inr em_A \<and>
   em_m em_A = [[1 / 2, 1 / 2], [1, 0], [0, 1]] \<and>
   recursiveSearch em_A [0 ..< n_std em_A] [0 ..< n_test em_A] [] = Inr None \<and>
   findSolution em_A = Inl TypeError"
proof -
  have "recursiveSearch em_A [0 ..< n_std em_A] [0 ..< n_test em_A] [] = Inr None"
    by code_simp
  with None_is_TypeError [OF this] example_inits(1) example_matrices(1) show ?thesis
    by simp
qed

text \<open>
  Claim C6 says that the branch that leaves the head index unmatched is explored if and
  only if no candidate survived the pruning, or there was exactly one candidate and it
  has more than one alternative.  On example A, at the head index 0 with the pools
  \<open>[0, 1, 2]\<close> and \<open>[0, 1]\<close>, the candidates are 0 and 1, none survives, so the condition
  of the claim holds; the loop ends with a count of 2 and the guard of the code is false.
\<close>

theorem skip_guard_counts_dropped_candidates:
  "findMatches em_A 0 [0, 1] = [0, 1] \<and>
   surviving em_A 0 [0, 1, 2] [0, 1] = [] \<and>
   spec_skip_condition em_A 0 [0, 1, 2] [0, 1] \<and>
   map_sum id (\<lambda>st. (max_res st, possible_pairs_count st, pair_max_alternatives st, skip_guard st))
     (for_each
        (candidate_step em_A 0 [0, 1, 2] [0, 1] []
           (\<lambda>test' pairs'. recursiveSearch em_A [1, 2] test' pairs'))
        (findMatches em_A 0 [0, 1])
        \<lparr>max_res = None, possible_pairs_count = 0, pair_max_alternatives = 0\<rparr>) =
     Inr (None, 2, 2, False)"
proof (intro conjI)
  show "findMatches em_A 0 [0, 1] = [0, 1]"
    by code_simp
  show "surviving em_A 0 [0, 1, 2] [0, 1] = []"
    by code_simp
  show "spec_skip_condition em_A 0 [0, 1, 2] [0, 1]"
    by code_simp
  show "map_sum id
      (\<lambda>st. (max_res st, possible_pairs_count st, pair_max_alternatives st, skip_guard st))
      (for_each
        (candidate_step em_A 0 [0, 1, 2] [0, 1] []
           (\<lambda>test' pairs'. recursiveSearch em_A [1, 2] test' pairs'))
        (findMatches em_A 0 [0, 1])
        \<lparr>max_res = None, possible_pairs_count = 0, pair_max_alternatives = 0\<rparr>) =
     Inr (None, 2, 2, False)"
    by code_simp
qed

text \<open>
  Claim C1 says that no admissible pairing has a greater overall F1 than the matching
  that \<open>findSolution\<close> returns.  On example B the search returns \<open>[(0, 0), (2, 1)]\<close> with
  an overall F1 of 2/5, while the pairing \<open>[(1, 0), (2, 1)]\<close> has 3/5: standard index 0
  has two candidates, so leaving it unmatched is never tried.  No entry of the matrix is
  1, so the mandate for perfect matches constrains nothing here.
\<close>

theorem search_misses_better_pairing:
  "EvaluationMatrix_init std_A test_A calc_B ''regular'' = Inr em_B \<and>
   em_m em_B = [[1 / 4, 1 / 4], [3 / 4, 0], [0, 3 / 4]] \<and>
   map_sum id fst (findSolution em_B) = Inr [(0, 0), (2, 1)] \<and>
   overall_f1 em_B [(0, 0), (2, 1)] = 2 / 5 \<and>
   overall_f1 em_B [(1, 0), (2, 1)] = 3 / 5"
proof -
  have "overall_f1 em_B [(0, 0), (2, 1)] = 2 / 5" "overall_f1 em_B [(1, 0), (2, 1)] = 3 / 5"
    by code_simp+
  with example_inits(2) example_matrices(2) example_matchings(1) show ?thesis
    by simp
qed

lemma better_pairing_admissible: "admissible em_B [(1, 0), (2, 1)]"
  by code_simp

text \<open>
  Claim C2 says that a perfect pair that nothing contests is in the returned matching.
  On example C the pair \<open>(0, 0)\<close> has priority 1 and is the only perfect pair; the test
  object has a second alternative, so the branch that leaves standard index 0 out is
  explored, and it wins with an overall F1 of 2/3 against 1/3: the returned matching is
  \<open>[(1, 0)]\<close>.
\<close>

theorem perfect_pair_left_out:
  "EvaluationMatrix_init std_C test_C calc_C ''regular'' = Inr em_C \<and>
   em_m em_C = [[1], [1 / 2]] \<and>
   map_sum id fst (findSolution em_C) = Inr [(1, 0)] \<and>
   overall_f1 em_C [(0, 0)] = 1 / 3 \<and>
   overall_f1 em_C [(1, 0)] = 2 / 3"
proof -
  have "overall_f1 em_C [(0, 0)] = 1 / 3" "overall_f1 em_C [(1, 0)] = 2 / 3"
    by code_simp+
  with example_inits(3) example_matrices(3) example_matchings(2) show ?thesis
    by simp
qed

lemma example_C_perfect_pair: "perfect_pair em_C 0 0"
  by code_simp

text \<open>
  Example D shows both failures with a scorer whose quality is its priority.  The pair
  \<open>(0, 0)\<close> is perfect and uncontested.  The branch that commits it returns \<^verbatim>\<open>None\<close>
  (both candidates of standard index 1 are then dropped), which the comparison of line
  133 takes without looking at it while nothing better is known; the branch that leaves
  index 0 out replaces it.  The returned matching lacks the perfect pair and has a
  smaller overall F1 than the admissible pairing that contains it.
\<close>

lemma example_D:
  "perfect_pair em_D 0 0"
  "map_sum id fst (findSolution em_D) = Inr [(1, 0), (2, 1), (3, 2)]"
  "recursiveSearch em_D [1, 2, 3] [1, 2] [(0, 0)] = Inr None"
  "admissible em_D [(0, 0), (2, 1), (3, 2)]"
  "overall_f1 em_D [(1, 0), (2, 1), (3, 2)] = 5 / 7"
  "overall_f1 em_D [(0, 0), (2, 1), (3, 2)] = 6 / 7"
  by code_simp+

end
